theory Spec2Isabelle
  imports Main "HOL-Library.AList"
begin

section \<open>Values, option objects and the Underscore merge\<close>

text \<open>
  The framework is JavaScript: \<^verbatim>\<open>src/js/F/F.Component.js\<close> holds \<^verbatim>\<open>F.Component\<close> and
  \<^verbatim>\<open>F.CollectionComponent\<close>. Components are objects on a heap and are named here by
  their address. Option and parameter objects are maps from property names to primitive
  values.
\<close>

type_synonym ref = nat

datatype jsval = JUndefined | JBool bool | JNum int | JStr string

text \<open>The truth value an \<^verbatim>\<open>if\<close> or a \<^verbatim>\<open>!\<close> of the source sees.\<close>

fun truthy :: "jsval \<Rightarrow> bool" where
  "truthy JUndefined = False"
| "truthy (JBool b) = b"
| "truthy (JNum n) = (n \<noteq> 0)"
| "truthy (JStr s) = (s \<noteq> [])"

type_synonym jsobj = "string \<rightharpoonup> jsval"

text \<open>Reading a property: a missing one reads as \<^verbatim>\<open>undefined\<close>.\<close>

definition get :: "jsobj \<Rightarrow> string \<Rightarrow> jsval" where
  "get obj k = (case obj k of None \<Rightarrow> JUndefined | Some v \<Rightarrow> v)"

text \<open>
  \<^verbatim>\<open>_.extend(obj, src1, ..., srcn)\<close> of the Underscore library (an external library):
  every property of each source is copied onto \<^verbatim>\<open>obj\<close>, the sources taken left to
  right, so a later source overwrites an earlier one.
\<close>

definition underscore_extend :: "jsobj \<Rightarrow> jsobj list \<Rightarrow> jsobj" where
  "underscore_extend obj srcs = foldl (++) obj srcs"

section \<open>Option merging along the prototype chain\<close>

text \<open>
  A prototype of the class system: the \<^verbatim>\<open>options\<close> object it declares itself, if any
  (\<^verbatim>\<open>proto.hasOwnProperty('options')\<close>), and its \<^verbatim>\<open>superClass\<close>.
\<close>

datatype proto = Proto (own_options: "jsobj option") (superClass: "proto option")

text \<open>
  The loop of \<^verbatim>\<open>mergeOptions\<close>:
  \<^verbatim>\<open>while (proto) { if (proto.hasOwnProperty('options')) optionSets.unshift(proto.options);
     proto = proto.superClass; }\<close>
\<close>

fun collect_optionSets :: "proto option \<Rightarrow> jsobj list \<Rightarrow> jsobj list" where
  "collect_optionSets None optionSets = optionSets"
| "collect_optionSets (Some (Proto own super)) optionSets =
     collect_optionSets super (case own of Some opts \<Rightarrow> opts # optionSets | None \<Rightarrow> optionSets)"

text \<open>
  \<^verbatim>\<open>mergeOptions\<close>: the collected sets, a fresh object unshifted in front of them, and
  \<^verbatim>\<open>_.extend.apply(_, optionSets)\<close>. The argument is \<^verbatim>\<open>this.constructor.prototype\<close>.
\<close>

definition mergeOptions :: "proto \<Rightarrow> jsobj" where
  "mergeOptions p = underscore_extend Map.empty (collect_optionSets (Some p) [])"

text \<open>
  \<^verbatim>\<open>applyOptions(options)\<close>: a passed option is copied only when the merged options
  already have that key; then the merged options are written back onto the passed object.
  The result is the pair (\<^verbatim>\<open>this.options\<close>, the passed object) afterwards.
\<close>

definition applyOptions :: "jsobj \<Rightarrow> jsobj \<Rightarrow> jsobj \<times> jsobj" where
  "applyOptions this_options passed =
     (let merged = (\<lambda>k. if k \<in> dom passed \<and> k \<in> dom this_options then passed k else this_options k)
      in (merged, underscore_extend passed [merged]))"

section \<open>Events\<close>

text \<open>
  An event argument. The components themselves emit objects \<^verbatim>\<open>{name, component}\<close>; a
  field of such an object may be \<^verbatim>\<open>undefined\<close>. Any other argument is a primitive
  value, whose \<^verbatim>\<open>name\<close> and \<^verbatim>\<open>component\<close> read as \<^verbatim>\<open>undefined\<close>.
\<close>

datatype arg = EvtObj "string option" "ref option" | Data jsval

fun name_of :: "arg \<Rightarrow> string option" where
  "name_of (EvtObj nm c) = nm"
| "name_of (Data v) = None"

fun component_of :: "arg \<Rightarrow> ref option" where
  "component_of (EvtObj nm c) = c"
| "component_of (Data v) = None"

text \<open>
  The functions that the component code subscribes. \<^verbatim>\<open>HandleSubComponentShown p\<close> is
  \<^verbatim>\<open>p._handleSubComponentShown\<close>, bound once to \<^verbatim>\<open>p\<close> by the constructor.
  \<^verbatim>\<open>Relay i p evt\<close> is the closure that \<^verbatim>\<open>p.bubble(_, evt)\<close> creates; every call of
  \<^verbatim>\<open>bubble\<close> creates a new function, told apart by \<^verbatim>\<open>i\<close>.
\<close>

datatype handler = HandleSubComponentShown ref | Relay nat ref string

text \<open>
  Modelled from the spec: \<^verbatim>\<open>F.EventEmitter\<close> is not among the sources. Its contract
  (spec, External interfaces): \<^verbatim>\<open>on/off/trigger\<close> subscribe, unsubscribe and emit
  locally, a handler being removed by function identity; \<^verbatim>\<open>listenTo/stopListening\<close>
  subscribe to another emitter and unsubscribe everything that was subscribed to a target
  that way. A subscription records the event, the function, and the listening object
  when it was made by \<^verbatim>\<open>listenTo\<close>.
\<close>

datatype listener = Listener (ev: string) (cb: handler) (ctx: "ref option")

definition handlers_for :: "string \<Rightarrow> listener list \<Rightarrow> handler list" where
  "handlers_for e ls = map cb (filter (\<lambda>l. ev l = e) ls)"

section \<open>Components and the store\<close>

text \<open>
  Modelled from the spec: the view is an external collaborator with \<^verbatim>\<open>render()\<close>,
  \<^verbatim>\<open>show()\<close>, \<^verbatim>\<open>hide()\<close>, a root element that may be missing, and display
  toggling on that element.
\<close>

record view =
  el :: bool
  displayed :: bool

text \<open>The fields a \<^verbatim>\<open>CollectionComponent\<close> adds.\<close>

record collpart =
  defaultParams :: jsobj
  params :: jsobj
  collectionLoaded :: bool

text \<open>
  A component. \<^verbatim>\<open>slots\<close> are the properties \<^verbatim>\<open>this[componentName]\<close>, \<^verbatim>\<open>components\<close>
  is \<^verbatim>\<open>this.components\<close> in insertion order (the order of \<^verbatim>\<open>for ... in\<close>).
  \<^verbatim>\<open>options\<close> holds \<^verbatim>\<open>singly\<close>, \<^verbatim>\<open>visible\<close>, \<^verbatim>\<open>debug\<close> and the run-time flag
  \<^verbatim>\<open>isSetup\<close>. The optional hooks \<^verbatim>\<open>setup\<close> and \<^verbatim>\<open>teardown\<close> are user code: the model
  records whether each is a function and counts its calls. Console output is not modelled.
\<close>

record component =
  name :: string
  options :: jsobj
  view :: "view option"
  slots :: "string \<rightharpoonup> ref"
  components :: "(string \<times> ref) list"
  parent :: "ref option"
  bubbledEvts :: "string \<times> string \<rightharpoonup> handler"
  currentSubComponent :: "ref option"
  overlay :: bool
  has_setup :: bool
  has_teardown :: bool
  setup_calls :: nat
  teardown_calls :: nat
  listeners :: "listener list"
  coll :: "collpart option"

text \<open>The success callbacks that the source passes to \<^verbatim>\<open>load\<close>.\<close>

datatype callback = NoCallback | ShowSelf | UserFn nat

record fetch =
  target :: ref
  fdata :: jsobj
  success_cb :: callback

text \<open>
  The store: the heap of components, the events emitted so far (emitter, event name,
  arguments), the fetches issued and not yet answered, and the supply of identities for
  new relay closures.
\<close>

record store =
  heap :: "ref \<Rightarrow> component"
  trace :: "(ref \<times> string \<times> arg list) list"
  pending :: "fetch list"
  fresh :: nat

definition upd :: "ref \<Rightarrow> (component \<Rightarrow> component) \<Rightarrow> store \<Rightarrow> store" where
  "upd c f s = s\<lparr>heap := (heap s)(c := f (heap s c))\<rparr>"

text \<open>\<^verbatim>\<open>isVisible\<close> returns \<^verbatim>\<open>this.options.visible\<close>; the callers test its truth value.\<close>

definition isVisible :: "store \<Rightarrow> ref \<Rightarrow> bool" where
  "isVisible s c = truthy (get (options (heap s c)) ''visible'')"

definition isSetup :: "component \<Rightarrow> bool" where
  "isSetup x = truthy (get (options x) ''isSetup'')"

record opts =
  silent :: bool
  oparams :: "jsobj option"

definition no_opts :: opts where
  "no_opts = \<lparr>silent = False, oparams = None\<rparr>"

subsection \<open>The emitter operations\<close>

definition on :: "ref \<Rightarrow> string \<Rightarrow> handler \<Rightarrow> store \<Rightarrow> store" where
  "on c e h s = upd c (\<lambda>x. x\<lparr>listeners := listeners x @ [Listener e h None]\<rparr>) s"

definition off :: "ref \<Rightarrow> string \<Rightarrow> handler \<Rightarrow> store \<Rightarrow> store" where
  "off c e h s = upd c (\<lambda>x. x\<lparr>listeners := filter (\<lambda>l. \<not> (ev l = e \<and> cb l = h)) (listeners x)\<rparr>) s"

definition listenTo :: "ref \<Rightarrow> ref \<Rightarrow> string \<Rightarrow> handler \<Rightarrow> store \<Rightarrow> store" where
  "listenTo me other e h s =
     upd other (\<lambda>x. x\<lparr>listeners := listeners x @ [Listener e h (Some me)]\<rparr>) s"

definition stopListening :: "ref \<Rightarrow> ref \<Rightarrow> store \<Rightarrow> store" where
  "stopListening me other s =
     upd other (\<lambda>x. x\<lparr>listeners := filter (\<lambda>l. ctx l \<noteq> Some me) (listeners x)\<rparr>) s"

subsection \<open>Results\<close>

text \<open>
  A call of the source returns a value and leaves a store, or throws. Reading a property
  of \<^verbatim>\<open>undefined\<close> is the one way the modelled code throws (\<^verbatim>\<open>TypeError\<close>). The
  handlers call each other through the events, without bound in a cyclic component
  graph; the model counts the nesting of calls and gives \<^verbatim>\<open>OutOfFuel\<close> when the count is
  used up.
\<close>

datatype error = TypeError | OutOfFuel

datatype jsret = RFalse | RThis ref | RUndefined

type_synonym result = "error + jsret \<times> store"

definition andThen :: "result \<Rightarrow> (store \<Rightarrow> result) \<Rightarrow> result" where
  "andThen r f = (case r of Inl e \<Rightarrow> Inl e | Inr (v, s) \<Rightarrow> f s)"

text \<open>A loop over a list, run for its effects; it stops at the first throw.\<close>

fun each :: "('a \<Rightarrow> store \<Rightarrow> result) \<Rightarrow> 'a list \<Rightarrow> store \<Rightarrow> result" where
  "each f [] s = Inr (RUndefined, s)"
| "each f (x # xs) s = andThen (f x s) (each f xs)"

subsection \<open>The pieces of \<^verbatim>\<open>show\<close> and \<^verbatim>\<open>hide\<close> that touch one component\<close>

text \<open>
  \<^verbatim>\<open>if (this.view) { this.view.show();
       if (!this.options.isSetup && typeof this.setup === 'function') {
         this.setup(options); this.options.isSetup = true; } }\<close>
\<close>

definition show_view :: "component \<Rightarrow> component" where
  "show_view x =
     (case view x of
        None \<Rightarrow> x
      | Some v \<Rightarrow>
          (let x1 = x\<lparr>view := Some (v\<lparr>displayed := True\<rparr>)\<rparr>
           in if \<not> isSetup x1 \<and> has_setup x1
              then x1\<lparr>setup_calls := Suc (setup_calls x1),
                      options := (options x1)(''isSetup'' \<mapsto> JBool True)\<rparr>
              else x1))"

definition set_visible :: "bool \<Rightarrow> component \<Rightarrow> component" where
  "set_visible b x = x\<lparr>options := (options x)(''visible'' \<mapsto> JBool b)\<rparr>"

text \<open>\<^verbatim>\<open>if (this.view) this.view.hide();\<close>\<close>

definition hide_view :: "component \<Rightarrow> component" where
  "hide_view x = (case view x of None \<Rightarrow> x | Some v \<Rightarrow> x\<lparr>view := Some (v\<lparr>displayed := False\<rparr>)\<rparr>)"

text \<open>
  \<^verbatim>\<open>if (this.options.isSetup && typeof this.teardown === 'function') {
       this.teardown(options); this.options.isSetup = false; }\<close>
\<close>

definition run_teardown :: "component \<Rightarrow> component" where
  "run_teardown x =
     (if isSetup x \<and> has_teardown x
      then x\<lparr>teardown_calls := Suc (teardown_calls x),
             options := (options x)(''isSetup'' \<mapsto> JBool False)\<rparr>
      else x)"

text \<open>The event object \<^verbatim>\<open>{ name: this.toString(), component: this }\<close>.\<close>

definition self_evt :: "store \<Rightarrow> ref \<Rightarrow> arg" where
  "self_evt s c = EvtObj (Some (name (heap s c))) (Some c)"

text \<open>
  \<^verbatim>\<open>this.components[evt.name]\<close>: an undefined name is looked up as the property
  \<^verbatim>\<open>"undefined"\<close>; \<^verbatim>\<open>[evt.name]\<close> as an exception list matches no key then.
\<close>

definition key_of :: "arg \<Rightarrow> string" where
  "key_of a = (case name_of a of Some k \<Rightarrow> k | None \<Rightarrow> ''undefined'')"

definition except_of :: "arg \<Rightarrow> string list" where
  "except_of a = (case name_of a of Some k \<Rightarrow> [k] | None \<Rightarrow> [])"

subsection \<open>The calls\<close>

text \<open>
  \<^verbatim>\<open>Show\<close> is the method call \<^verbatim>\<open>c.show(options)\<close>, dispatched on the class of
  \<^verbatim>\<open>c\<close>; \<^verbatim>\<open>ComponentShow\<close> is \<^verbatim>\<open>F.Component.prototype.show\<close>, which
  \<^verbatim>\<open>CollectionComponent.show\<close> reaches by \<^verbatim>\<open>this.inherited(arguments)\<close>.
  \<^verbatim>\<open>Invoke h args\<close> is a call of a subscribed function. The exception list of
  \<^verbatim>\<open>hideAllSubComponents\<close> is \<^verbatim>\<open>None\<close> when the argument is not an array.

  A method calls the other members through \<^verbatim>\<open>this\<close> (\<^verbatim>\<open>this.trigger(...)\<close>,
  \<^verbatim>\<open>this.hideAllSubComponents(...)\<close>, \<^verbatim>\<open>this.show()\<close>, \<^verbatim>\<open>this.options\<close>): the equations
  below are those calls with every member in its place. The children of a component are
  properties of the same object (see \<^verbatim>\<open>addComponent\<close>), and the model keeps them apart
  from the members, in \<^verbatim>\<open>slots\<close>; where a child has been stored under the name of a
  member the equations do not describe the code (see \<^verbatim>\<open>intact\<close> below). The registry
  \<^verbatim>\<open>this.components\<close> is read with the names of components as keys, in the order
  of insertion; names that an object literal inherits (\<^verbatim>\<open>toString\<close>, \<^verbatim>\<open>constructor\<close>)
  and names that are array indices, which \<^verbatim>\<open>for ... in\<close> visits first, are not told
  apart from other names.
\<close>

datatype call =
    Show ref opts
  | ComponentShow ref opts
  | Hide ref opts
  | Trigger ref string "arg list"
  | Invoke handler "arg list"
  | HideAllSubComponents ref "string list option"
  | ShowAllSubComponents ref "string list option"
  | Load ref "jsobj option" callback
  | Refresh ref callback

text \<open>
  \<^verbatim>\<open>except = !_.isArray(except) ? [] : except\<close> and the test
  \<^verbatim>\<open>~except.indexOf(componentName)\<close> of the two loops over the sub-components.
\<close>

definition excepted :: "string list option \<Rightarrow> string \<Rightarrow> bool" where
  "excepted except componentName \<longleftrightarrow>
     componentName \<in> set (case except of Some xs \<Rightarrow> xs | None \<Rightarrow> [])"

definition skip :: "store \<Rightarrow> result" where
  "skip s = Inr (RUndefined, s)"

definition returning :: "jsret \<Rightarrow> result \<Rightarrow> result" where
  "returning v r = andThen r (\<lambda>s. Inr (v, s))"

fun exec :: "nat \<Rightarrow> call \<Rightarrow> store \<Rightarrow> result" where
  "exec 0 c s = Inl OutOfFuel"
| "exec (Suc n) (Trigger c e args) s =
     returning (RThis c)
       (each (\<lambda>h. exec n (Invoke h args)) (handlers_for e (listeners (heap s c)))
          (s\<lparr>trace := trace s @ [(c, e, args)]\<rparr>))"
| "exec (Suc n) (Invoke (Relay i p e) args) s =
     returning RUndefined (exec n (Trigger p e args) s)"
| "exec (Suc n) (Invoke (HandleSubComponentShown p) args) s =
     (case args of
        [] \<Rightarrow> Inl TypeError
      | evt # rest \<Rightarrow>
          if evt = Data JUndefined then Inl TypeError
          else
            (case map_of (components (heap s p)) (key_of evt) of
               None \<Rightarrow> Inr (RUndefined, s)
             | Some newComponent \<Rightarrow>
                 andThen
                   (if truthy (get (options (heap s p)) ''singly'') \<and> \<not> overlay (heap s newComponent)
                    then andThen (exec n (HideAllSubComponents p (Some (except_of evt))) s)
                           (\<lambda>s1. skip (upd p (\<lambda>x. x\<lparr>currentSubComponent := Some newComponent\<rparr>) s1))
                    else skip s)
                   (\<lambda>s2. andThen
                      (exec n (Trigger p ''subComponent:shown''
                                 [EvtObj (name_of evt) (component_of evt)]) s2)
                      (\<lambda>s3. returning RUndefined (exec n (Show p no_opts) s3)))))"
| "exec (Suc n) (ComponentShow c opt) s =
     andThen
       (if \<not> silent opt then exec n (Trigger c ''component:shown'' [self_evt s c]) s
        else skip s)
       (\<lambda>s1. Inr (RThis c, upd c (set_visible True) (upd c show_view s1)))"
| "exec (Suc n) (Hide c opt) s =
     (if \<not> isVisible s c then Inr (RFalse, s)
      else
        andThen
          (if \<not> silent opt
           then exec n (Trigger c ''component:hidden'' [self_evt s c]) (upd c hide_view s)
           else skip (upd c hide_view s))
          (\<lambda>s1. Inr (RThis c, upd c (set_visible False) (upd c run_teardown s1))))"
| "exec (Suc n) (HideAllSubComponents p except) s =
     returning (RThis p)
       (each (\<lambda>(componentName, d).
                if excepted except componentName then skip
                else exec n (Hide d no_opts))
          (components (heap s p)) s)"
| "exec (Suc n) (ShowAllSubComponents p except) s =
     returning (RThis p)
       (each (\<lambda>(componentName, d).
                if excepted except componentName then skip
                else exec n (Show d no_opts))
          (components (heap s p)) s)"
| "exec (Suc n) (Load c fetchParams callback) s =
     (case coll (heap s c) of
        None \<Rightarrow> Inl TypeError
      | Some cp \<Rightarrow>
          (let cp1 = (case fetchParams of
                        Some fp \<Rightarrow> cp\<lparr>params := underscore_extend Map.empty [defaultParams cp, fp]\<rparr>
                      | None \<Rightarrow> cp);
               s1 = upd c (\<lambda>x. x\<lparr>coll := Some cp1\<rparr>) s
           in Inr (RThis c,
                   s1\<lparr>pending := pending s1 @
                        [\<lparr>target = c, fdata = params cp1, success_cb = callback\<rparr>]\<rparr>)))"
| "exec (Suc n) (Refresh c callback) s =
     (case coll (heap s c) of
        None \<Rightarrow> Inl TypeError
      | Some cp \<Rightarrow> returning (RThis c) (exec n (Load c (Some (params cp)) callback) s))"
| "exec (Suc n) (Show c opt) s =
     (case coll (heap s c) of
        None \<Rightarrow> exec n (ComponentShow c opt) s
      | Some cp \<Rightarrow>
          returning (RThis c)
            (case oparams opt of
               Some ps \<Rightarrow> exec n (Load c (Some ps) ShowSelf) s
             | None \<Rightarrow>
                 if \<not> collectionLoaded cp then exec n (Refresh c ShowSelf) s
                 else exec n (ComponentShow c opt) s))"

subsection \<open>Completed fetches\<close>



subsection \<open>Bubbling\<close>

text \<open>
  \<^verbatim>\<open>bubble(componentName, evt)\<close>: without the slot nothing changes (an error is
  logged); otherwise a new relay is stored in \<^verbatim>\<open>_bubbledEvts[componentName][evt]\<close> and
  subscribed with \<^verbatim>\<open>this[componentName].on(evt, handler)\<close>. The name is looked up
  among the children that \<^verbatim>\<open>addComponent\<close> has stored; \<^verbatim>\<open>this[componentName]\<close> with
  the name of a member (\<^verbatim>\<open>parent\<close>, say) is that member, which the model does not
  follow.
\<close>

definition bubble :: "ref \<Rightarrow> string \<Rightarrow> string \<Rightarrow> store \<Rightarrow> store" where
  "bubble p componentName evt s =
     (case slots (heap s p) componentName of
        None \<Rightarrow> s
      | Some x \<Rightarrow>
          (let h = Relay (fresh s) p evt;
               s1 = upd p (\<lambda>y. y\<lparr>bubbledEvts := (bubbledEvts y)((componentName, evt) \<mapsto> h)\<rparr>)
                      (s\<lparr>fresh := Suc (fresh s)\<rparr>)
           in on x evt h s1))"

text \<open>
  \<^verbatim>\<open>unbubble(componentName, evt)\<close>: a warning and no change when no relay is recorded;
  otherwise \<^verbatim>\<open>this[componentName].off(evt, handler)\<close>, which throws when the slot is
  gone. The record in \<^verbatim>\<open>_bubbledEvts\<close> stays.
\<close>

definition unbubble :: "ref \<Rightarrow> string \<Rightarrow> string \<Rightarrow> store \<Rightarrow> error + store" where
  "unbubble p componentName evt s =
     (case bubbledEvts (heap s p) (componentName, evt) of
        None \<Rightarrow> Inr s
      | Some h \<Rightarrow>
          (case slots (heap s p) componentName of
             None \<Rightarrow> Inl TypeError
           | Some x \<Rightarrow> Inr (off x evt h s)))"

subsection \<open>Adding and removing sub-components\<close>

text \<open>
  \<^verbatim>\<open>str.slice(0, 1).toLowerCase() + str.slice(1)\<close>. A character of the model is a
  code unit below 256; of these, \<^verbatim>\<open>toLowerCase\<close> changes the capital letters
  \<^verbatim>\<open>A\<close> to \<^verbatim>\<open>Z\<close> (65 to 90) and the capital letters of Latin-1 (192 to 222, without the
  multiplication sign 215), each to the code unit 32 above it.
\<close>

definition toLowerCase :: "char \<Rightarrow> char" where
  "toLowerCase ch =
     (let k = (of_char ch :: nat)
      in if (65 \<le> k \<and> k \<le> 90) \<or> (192 \<le> k \<and> k \<le> 222 \<and> k \<noteq> 215) then char_of (k + 32) else ch)"

definition decapitalize :: "string \<Rightarrow> string" where
  "decapitalize str = map toLowerCase (take 1 str) @ drop 1 str"

definition setName :: "ref \<Rightarrow> string \<Rightarrow> store \<Rightarrow> store" where
  "setName c customName s = upd c (\<lambda>x. x\<lparr>name := customName\<rparr>) s"

text \<open>
  \<^verbatim>\<open>addComponent(component, componentName)\<close>. The name is the decapitalized custom
  name when one is given (a non-empty string), else the decapitalized \<^verbatim>\<open>toString()\<close>
  of the component. A component with a view and a root element is shown silently when
  its \<^verbatim>\<open>visible\<close> option is \<^verbatim>\<open>true\<close>, else the element is hidden. The result is the
  store; the call returns the component. Line 169,
  \<^verbatim>\<open>this[componentName] = this.components[componentName] = component\<close>, writes the map
  \<^verbatim>\<open>slots\<close> and the registry; under the name of a member the property written is that
  member, which the record of the model keeps in a field of its own.
\<close>

definition addComponent :: "nat \<Rightarrow> ref \<Rightarrow> ref \<Rightarrow> string option \<Rightarrow> store \<Rightarrow> result" where
  "addComponent n p component customName s =
     (let componentName =
            (case customName of
               Some cn \<Rightarrow> if cn \<noteq> [] then decapitalize cn else decapitalize (name (heap s component))
             | None \<Rightarrow> decapitalize (name (heap s component)));
          s1 = setName component componentName s;
          s2 = upd p (\<lambda>x. x\<lparr>slots := (slots x)(componentName \<mapsto> component),
                              components := AList.update componentName component (components x)\<rparr>) s1
      in andThen
           (case view (heap s2 component) of
              None \<Rightarrow> skip s2
            | Some v \<Rightarrow>
                if el v
                then (if options (heap s2 component) ''visible'' = Some (JBool True)
                      then exec n (Show component \<lparr>silent = True, oparams = None\<rparr>) s2
                      else skip (upd component (\<lambda>x. x\<lparr>view := Some (v\<lparr>displayed := False\<rparr>)\<rparr>) s2))
                else skip s2)
           (\<lambda>s3. Inr (RThis component,
                    listenTo p component ''component:shown'' (HandleSubComponentShown p)
                      (upd component (\<lambda>x. x\<lparr>parent := Some p\<rparr>) s3))))"

text \<open>
  \<^verbatim>\<open>removeComponent(componentName)\<close>: when the slot holds a component,
  \<^verbatim>\<open>this.stopListening(component)\<close> and both entries are deleted.
\<close>

definition removeComponent :: "ref \<Rightarrow> string \<Rightarrow> store \<Rightarrow> store" where
  "removeComponent p componentName s =
     (case slots (heap s p) componentName of
        None \<Rightarrow> s
      | Some component \<Rightarrow>
          upd p (\<lambda>x. x\<lparr>slots := (slots x)(componentName := None),
                        components := AList.delete componentName (components x)\<rparr>)
            (stopListening p component s))"

subsection \<open>Construction\<close>

text \<open>
  \<^verbatim>\<open>new F.Component(options)\<close> for a class with prototype \<^verbatim>\<open>pr\<close> and class name
  \<^verbatim>\<open>nm\<close>: merged and applied options, empty registries. Whether the instance has a
  view, hooks or the overlay mark is decided by the subclass and is a parameter here.
\<close>

definition construct :: "proto \<Rightarrow> string \<Rightarrow> jsobj \<Rightarrow> component \<Rightarrow> component" where
  "construct pr nm passed x =
     x\<lparr>name := nm,
       options := fst (applyOptions (mergeOptions pr) passed),
       slots := Map.empty,
       components := [],
       bubbledEvts := Map.empty\<rparr>"

text \<open>The prototype of \<^verbatim>\<open>F.Component\<close> itself: its declared options, no super class.\<close>

definition Component_proto :: proto where
  "Component_proto =
     Proto (Some [''singly'' \<mapsto> JBool False, ''visible'' \<mapsto> JBool False, ''debug'' \<mapsto> JBool False])
       None"

text \<open>An object before its constructor has run: no fields set.\<close>

definition blank :: component where
  "blank = \<lparr>name = [], options = Map.empty, view = None, slots = Map.empty, components = [],
            parent = None, bubbledEvts = Map.empty, currentSubComponent = None, overlay = False,
            has_setup = False, has_teardown = False, setup_calls = 0, teardown_calls = 0,
            listeners = [], coll = None\<rparr>"

definition empty_store :: store where
  "empty_store = \<lparr>heap = (\<lambda>r. blank), trace = [], pending = [], fresh = 0\<rparr>"

section \<open>Auxiliary notions for the statements\<close>

text \<open>
  The option objects that the classes of a hierarchy declare, the most derived class
  first.
\<close>

fun levels :: "proto \<Rightarrow> jsobj list" where
  "levels (Proto own super) =
     (case own of Some opts \<Rightarrow> [opts] | None \<Rightarrow> []) @
     (case super of Some q \<Rightarrow> levels q | None \<Rightarrow> [])"

text \<open>
  The single changes of the store that the calls are made of: an emission, the record of
  the current sub-component, the end of \<^verbatim>\<open>show\<close>, the two halves of \<^verbatim>\<open>hide\<close>, and a
  queued fetch.
\<close>

inductive prim :: "store \<Rightarrow> store \<Rightarrow> bool" where
  emit: "prim s (s\<lparr>trace := trace s @ [x]\<rparr>)"
| current: "prim s (upd p (\<lambda>y. y\<lparr>currentSubComponent := Some x\<rparr>) s)"
| shown: "prim s (upd c (set_visible True) (upd c show_view s))"
| view_hidden: "prim s (upd c hide_view s)"
| hidden: "prim s (upd c (set_visible False) (upd c run_teardown s))"
| queued: "coll (heap s c) = Some cp \<Longrightarrow>
     prim s ((upd c (\<lambda>x. x\<lparr>coll := Some (cp\<lparr>params := ps\<rparr>)\<rparr>) s)\<lparr>pending := pending s @ [f]\<rparr>)"



text \<open>The component a subscribed function belongs to, and the event it is subscribed for.\<close>

fun owner :: "handler \<Rightarrow> ref" where
  "owner (HandleSubComponentShown p) = p"
| "owner (Relay i p e) = p"

fun subscribed_as :: "handler \<Rightarrow> string" where
  "subscribed_as (HandleSubComponentShown p) = ''component:shown''"
| "subscribed_as (Relay i p e) = e"

text \<open>
  A component tree, with \<open>rank\<close> the depth of a component: every function subscribed to
  a component belongs to a component one level above it and is subscribed for its own event
  (the subscriptions that \<^verbatim>\<open>addComponent\<close> and \<^verbatim>\<open>bubble\<close> make), and the registered
  sub-components of a component are one level below it.
\<close>

definition wf_tree :: "(ref \<Rightarrow> nat) \<Rightarrow> store \<Rightarrow> bool" where
  "wf_tree rank s \<longleftrightarrow>
     (\<forall>c. \<forall>l \<in> set (listeners (heap s c)).
        Suc (rank (owner (cb l))) = rank c \<and> ev l = subscribed_as (cb l))
   \<and> (\<forall>p. \<forall>kd \<in> set (components (heap s p)). rank (snd kd) = Suc (rank p))"




text \<open>What no call changes in a component: all but its flags, its view and its parameters.\<close>

definition same_structure :: "component \<Rightarrow> component \<Rightarrow> bool" where
  "same_structure x y \<longleftrightarrow>
     listeners y = listeners x \<and> components y = components x \<and> slots y = slots x
     \<and> name y = name x \<and> overlay y = overlay x \<and> bubbledEvts y = bubbledEvts x
     \<and> parent y = parent x
     \<and> (\<forall>k. k \<noteq> ''visible'' \<longrightarrow> k \<noteq> ''isSetup'' \<longrightarrow> options y k = options x k)
     \<and> (coll y = None \<longleftrightarrow> coll x = None)"

definition frame :: "(ref \<Rightarrow> nat) \<Rightarrow> nat \<Rightarrow> nat \<Rightarrow> ref option \<Rightarrow> store \<Rightarrow> store \<Rightarrow> bool" where
  "frame rank hb ub tgt s s' \<longleftrightarrow>
     (\<forall>x. same_structure (heap s x) (heap s' x))
   \<and> (\<forall>x. hb \<le> rank x \<longrightarrow> heap s' x = heap s x)
   \<and> (\<forall>x. ub \<le> rank x \<longrightarrow>
          currentSubComponent (heap s' x) = currentSubComponent (heap s x)
          \<and> (isVisible s' x \<longrightarrow> isVisible s x \<or> Some x = tgt))"





section \<open>Example stores\<close>


text \<open>A component without a view that defines \<^verbatim>\<open>setup\<close>.\<close>

definition without_view :: store where
  "without_view =
     empty_store\<lparr>heap := (\<lambda>r. blank)(0 := blank\<lparr>name := ''panel'', has_setup := True\<rparr>)\<rparr>"


text \<open>
  A collection component with default parameters \<^verbatim>\<open>{sort: 'name', page: 1}\<close>, never
  loaded.
\<close>

definition items :: store where
  "items =
     empty_store\<lparr>heap := (\<lambda>r. blank)
       (0 := blank\<lparr>name := ''list'',
                   coll := Some \<lparr>defaultParams = [''sort'' \<mapsto> JStr ''name'', ''page'' \<mapsto> JNum 1],
                                 params = [''sort'' \<mapsto> JStr ''name'', ''page'' \<mapsto> JNum 1],
                                 collectionLoaded = False\<rparr>\<rparr>)\<rparr>"

text \<open>
  A parent in singly mode with two sub-components as \<^verbatim>\<open>addComponent\<close> registers them;
  the first one is visible.
\<close>

definition family :: store where
  "family =
     empty_store\<lparr>heap := (\<lambda>r. blank)
       (0 := blank\<lparr>name := ''parent'', options := [''singly'' \<mapsto> JBool True],
                   slots := [''a'' \<mapsto> 1, ''b'' \<mapsto> 2],
                   components := [(''a'', 1), (''b'', 2)]\<rparr>,
        1 := blank\<lparr>name := ''a'', options := [''visible'' \<mapsto> JBool True], parent := Some 0,
                   listeners := [Listener ''component:shown'' (HandleSubComponentShown 0) (Some 0)]\<rparr>,
        2 := blank\<lparr>name := ''b'', parent := Some 0,
                   listeners := [Listener ''component:shown'' (HandleSubComponentShown 0) (Some 0)]\<rparr>)\<rparr>"

text \<open>The depth of the components of the example stores: 0 is the root.\<close>

definition depth1 :: "ref \<Rightarrow> nat" where
  "depth1 r = (if r = 0 then 0 else 1)"


text \<open>
  A parent in singly mode and two components that are not registered in it yet; all three
  are hidden and have the name of their class.
\<close>

definition loose :: store where
  "loose =
     empty_store\<lparr>heap := (\<lambda>r. blank)
       (0 := blank\<lparr>name := ''Component'', options := [''singly'' \<mapsto> JBool True]\<rparr>,
        1 := blank\<lparr>name := ''Component''\<rparr>,
        2 := blank\<lparr>name := ''Component''\<rparr>)\<rparr>"




text \<open>
  A parent in singly mode and two components that are not registered in it yet, each
  constructed with the option \<^verbatim>\<open>visible: true\<close> and with a view.
\<close>

definition eager :: store where
  "eager =
     empty_store\<lparr>heap := (\<lambda>r. blank)
       (0 := blank\<lparr>name := ''Component'', options := [''singly'' \<mapsto> JBool True]\<rparr>,
        1 := blank\<lparr>name := ''Component'', options := [''visible'' \<mapsto> JBool True],
                   view := Some \<lparr>el = True, displayed = False\<rparr>\<rparr>,
        2 := blank\<lparr>name := ''Component'', options := [''visible'' \<mapsto> JBool True],
                   view := Some \<lparr>el = True, displayed = False\<rparr>\<rparr>)\<rparr>"


section \<open>Properties\<close>

subsection \<open>Evaluation rules\<close>

lemma andThen_simps:
  "andThen (Inr (v, s)) f = f s"
  "andThen (Inl e) f = Inl e"
  by (simp_all add: andThen_def)

lemma returning_simps:
  "returning w (Inr (v, s)) = Inr (w, s)"
  "returning w (Inl e) = Inl e"
  by (simp_all add: returning_def andThen_def)

lemma andThen_weak_cong: "r = r' \<Longrightarrow> andThen r f = andThen r' f"
  by simp

lemma each_weak_cong: "xs = xs' \<Longrightarrow> s = s' \<Longrightarrow> each f xs s = each f xs' s'"
  by simp

lemmas exec_num = exec.simps(2-)[of "pred_numeral k", folded numeral_eq_Suc] for k

lemmas exec_one = exec.simps(2-)[of 0, folded One_nat_def]

subsection \<open>Option merging\<close>

lemma collect_optionSets_levels:
  "collect_optionSets (Some p) acc = rev (levels p) @ acc"
proof (induction p arbitrary: acc)
  case (Proto own super)
  show ?case
  proof (cases super)
    case None
    then show ?thesis by (cases own) simp_all
  next
    case (Some q)
    have "q \<in> set_option super" using Some by simp
    from Proto.IH[OF this] Some show ?thesis by (cases own) simp_all
  qed
qed

lemma foldl_map_add_rev_first:
  assumes "i < length ms" "(ms ! i) k = Some v" "\<forall>j<i. (ms ! j) k = None"
  shows "foldl (++) a (rev ms) k = Some v"
  using assms
proof (induction ms arbitrary: i)
  case Nil
  then show ?case by simp
next
  case (Cons m ms)
  show ?case
  proof (cases i)
    case 0
    with Cons.prems have "(foldl (++) a (rev ms) ++ m) k = Some v"
      by (simp add: map_add_def)
    then show ?thesis by simp
  next
    case (Suc i')
    have "m k = None" using Cons.prems(3) Suc by auto
    moreover have "foldl (++) a (rev ms) k = Some v"
    proof (rule Cons.IH)
      show "i' < length ms" using Cons.prems(1) Suc by simp
      show "(ms ! i') k = Some v" using Cons.prems(2) Suc by simp
      show "\<forall>j<i'. (ms ! j) k = None"
      proof (intro allI impI)
        fix j assume "j < i'"
        then have "Suc j < i" using Suc by simp
        with Cons.prems(3) have "((m # ms) ! Suc j) k = None" by blast
        then show "(ms ! j) k = None" by simp
      qed
    qed
    ultimately have "(foldl (++) a (rev ms) ++ m) k = Some v"
      by (simp add: map_add_def)
    then show ?thesis by simp
  qed
qed

text \<open>
  C6. In the options that \<^verbatim>\<open>mergeOptions\<close> builds for a class, a key has the value
  of the most derived level of the hierarchy that declares it: if level \<open>i\<close> (counted
  from the most derived class) declares \<open>k\<close> with value \<open>v\<close> and no more derived
  level declares \<open>k\<close>, the merged options map \<open>k\<close> to \<open>v\<close>. So a key redeclared at
  several levels takes the most derived value, and a key declared at one level only is
  present with that level's value.
\<close>

theorem mergeOptions_most_derived:
  assumes "i < length (levels p)"
    and "(levels p ! i) k = Some v"
    and "\<forall>j<i. (levels p ! j) k = None"
  shows "mergeOptions p k = Some v"
  unfolding mergeOptions_def underscore_extend_def collect_optionSets_levels
  using foldl_map_add_rev_first[OF assms] by simp

text \<open>
  A hierarchy of three levels: the base declares \<^verbatim>\<open>singly\<close> and \<^verbatim>\<open>debug\<close>, the
  middle class redeclares \<^verbatim>\<open>singly\<close> and adds \<^verbatim>\<open>page\<close>, the derived class
  redeclares \<^verbatim>\<open>singly\<close> again. The shared key has the derived value; the key of the
  base alone is present.
\<close>

theorem mergeOptions_most_derived_witness:
  "mergeOptions
     (Proto (Some [''singly'' \<mapsto> JNum 3])
        (Some (Proto (Some [''singly'' \<mapsto> JNum 2, ''page'' \<mapsto> JNum 1])
           (Some (Proto (Some [''singly'' \<mapsto> JNum 1, ''debug'' \<mapsto> JBool False]) None)))))
     ''singly'' = Some (JNum 3)
   \<and> mergeOptions
     (Proto (Some [''singly'' \<mapsto> JNum 3])
        (Some (Proto (Some [''singly'' \<mapsto> JNum 2, ''page'' \<mapsto> JNum 1])
           (Some (Proto (Some [''singly'' \<mapsto> JNum 1, ''debug'' \<mapsto> JBool False]) None)))))
     ''debug'' = Some (JBool False)"
proof
  let ?p = "Proto (Some [''singly'' \<mapsto> JNum 3])
        (Some (Proto (Some [''singly'' \<mapsto> JNum 2, ''page'' \<mapsto> JNum 1])
           (Some (Proto (Some [''singly'' \<mapsto> JNum 1, ''debug'' \<mapsto> JBool False]) None))))"
  show "mergeOptions ?p ''singly'' = Some (JNum 3)"
    by (rule mergeOptions_most_derived[of 0]) simp_all
  show "mergeOptions ?p ''debug'' = Some (JBool False)"
    by (rule mergeOptions_most_derived[of 2]) (auto simp: less_Suc_eq numeral_2_eq_2)
qed

subsection \<open>The calls as sequences of single changes\<close>

lemmas evs = upd_def andThen_simps skip_def returning_simps excepted_def
     handlers_for_def isVisible_def get_def no_opts_def self_evt_def key_of_def except_of_def
     show_view_def set_visible_def hide_view_def run_teardown_def isSetup_def exec_num exec_one

lemma upd_simps [simp]:
  "heap (upd c f s) = (heap s)(c := f (heap s c))"
  "trace (upd c f s) = trace s"
  "pending (upd c f s) = pending s"
  "fresh (upd c f s) = fresh s"
  by (simp_all add: upd_def)

lemma andThen_Inr:
  "andThen r f = Inr y \<longleftrightarrow> (\<exists>v s. r = Inr (v, s) \<and> f s = Inr y)"
  by (auto simp: andThen_def split: sum.splits)

lemma returning_Inr:
  "returning w r = Inr y \<longleftrightarrow> (\<exists>v s. r = Inr (v, s) \<and> y = (w, s))"
  by (auto simp: returning_def andThen_def split: sum.splits)

lemma skip_Inr: "skip s = Inr y \<longleftrightarrow> y = (RUndefined, s)"
  by (auto simp: skip_def)

lemma each_steps:
  assumes "\<And>x s r s'. x \<in> set xs \<Longrightarrow> f x s = Inr (r, s') \<Longrightarrow> R\<^sup>*\<^sup>* s s'"
  shows "each f xs s = Inr (r, s') \<Longrightarrow> R\<^sup>*\<^sup>* s s'"
  using assms
proof (induction xs arbitrary: s)
  case Nil
  then show ?case by simp
next
  case (Cons x xs)
  from Cons.prems(1) obtain v s1 where a: "f x s = Inr (v, s1)" and b: "each f xs s1 = Inr (r, s')"
    by (auto simp: andThen_Inr)
  have "R\<^sup>*\<^sup>* s s1" using Cons.prems(2)[OF _ a] by simp
  moreover have "R\<^sup>*\<^sup>* s1 s'"
    by (rule Cons.IH[OF b]) (rule Cons.prems(2), simp_all)
  ultimately show ?case by simp
qed

lemma exec_prims: "exec n call s = Inr (r, s') \<Longrightarrow> prim\<^sup>*\<^sup>* s s'"
proof (induction n arbitrary: call s r s')
  case 0
  then show ?case by simp
next
  case (Suc n)
  note IH = Suc.IH
  show ?case
  proof (cases call)
    case (Show c opt)
    with Suc.prems show ?thesis
      by (auto simp: returning_Inr split: option.splits if_splits dest: IH)
  next
    case (ComponentShow c opt)
    with Suc.prems obtain v s1 where
      a: "(if \<not> silent opt then exec n (Trigger c ''component:shown'' [self_evt s c]) s else skip s) = Inr (v, s1)"
      and b: "s' = upd c (set_visible True) (upd c show_view s1)"
      by (auto simp: andThen_Inr)
    have "prim\<^sup>*\<^sup>* s s1" using a by (auto simp: skip_Inr split: if_splits dest: IH)
    moreover have "prim s1 s'" unfolding b by (rule prim.shown)
    ultimately show ?thesis by simp
  next
    case (Hide c opt)
    show ?thesis
    proof (cases "isVisible s c")
      case False
      with Suc.prems Hide show ?thesis by simp
    next
      case True
      with Suc.prems Hide obtain v s1 where
        a: "(if \<not> silent opt then exec n (Trigger c ''component:hidden'' [self_evt s c]) (upd c hide_view s)
             else skip (upd c hide_view s)) = Inr (v, s1)"
        and b: "s' = upd c (set_visible False) (upd c run_teardown s1)"
        by (auto simp: andThen_Inr)
      have "prim s (upd c hide_view s)" by (rule prim.view_hidden)
      moreover have "prim\<^sup>*\<^sup>* (upd c hide_view s) s1"
        using a by (auto simp: skip_Inr split: if_splits dest: IH)
      moreover have "prim s1 s'" unfolding b by (rule prim.hidden)
      ultimately show ?thesis by simp
    qed
  next
    case (Trigger c e args)
    with Suc.prems obtain v where
      a: "each (\<lambda>h. exec n (Invoke h args)) (handlers_for e (listeners (heap s c)))
            (s\<lparr>trace := trace s @ [(c, e, args)]\<rparr>) = Inr (v, s')"
      by (auto simp: returning_Inr)
    have "prim s (s\<lparr>trace := trace s @ [(c, e, args)]\<rparr>)" by (rule prim.emit)
    moreover have "prim\<^sup>*\<^sup>* (s\<lparr>trace := trace s @ [(c, e, args)]\<rparr>) s'"
      by (rule each_steps[OF _ a]) (rule IH)
    ultimately show ?thesis by simp
  next
    case (Invoke h args)
    show ?thesis
    proof (cases h)
      case (Relay i p e)
      with Suc.prems Invoke show ?thesis by (auto simp: returning_Inr dest: IH)
    next
      case (HandleSubComponentShown p)
      with Suc.prems Invoke obtain evt rest where args: "args = evt # rest"
        by (cases args) auto
      show ?thesis
      proof (cases "map_of (components (heap s p)) (key_of evt)")
        case None
        with Suc.prems Invoke HandleSubComponentShown args show ?thesis
          by (auto split: if_splits)
      next
        case (Some nc)
        from Suc.prems Invoke HandleSubComponentShown args have ne: "evt \<noteq> Data JUndefined"
          by (auto split: if_splits)
        with Some Suc.prems Invoke HandleSubComponentShown args obtain v2 s2 v3 s3 v4 where
          a: "(if truthy (get (options (heap s p)) ''singly'') \<and> \<not> overlay (heap s nc)
               then andThen (exec n (HideAllSubComponents p (Some (except_of evt))) s)
                      (\<lambda>s1. skip (upd p (\<lambda>x. x\<lparr>currentSubComponent := Some nc\<rparr>) s1))
               else skip s) = Inr (v2, s2)"
          and b: "exec n (Trigger p ''subComponent:shown'' [EvtObj (name_of evt) (component_of evt)]) s2 = Inr (v3, s3)"
          and c: "exec n (Show p no_opts) s3 = Inr (v4, s')"
          by (auto simp: andThen_Inr returning_Inr)
        have "prim\<^sup>*\<^sup>* s s2"
        proof (cases "truthy (get (options (heap s p)) ''singly'') \<and> \<not> overlay (heap s nc)")
          case True
          with a obtain v1 s1 where
            a1: "exec n (HideAllSubComponents p (Some (except_of evt))) s = Inr (v1, s1)"
            and a2: "s2 = upd p (\<lambda>x. x\<lparr>currentSubComponent := Some nc\<rparr>) s1"
            by (auto simp: andThen_Inr skip_Inr)
          have "prim\<^sup>*\<^sup>* s s1" using a1 by (rule IH)
          moreover have "prim s1 s2" unfolding a2 by (rule prim.current)
          ultimately show ?thesis by simp
        next
          case False
          with a show ?thesis by (auto simp: skip_Inr)
        qed
        moreover have "prim\<^sup>*\<^sup>* s2 s3" using b by (rule IH)
        moreover have "prim\<^sup>*\<^sup>* s3 s'" using c by (rule IH)
        ultimately show ?thesis by simp
      qed
    qed
  next
    case (HideAllSubComponents p except)
    with Suc.prems obtain v where
      a: "each (\<lambda>(componentName, d).
                if excepted except componentName then skip
                else exec n (Hide d no_opts)) (components (heap s p)) s = Inr (v, s')"
      by (auto simp: returning_Inr)
    show ?thesis
      by (rule each_steps[OF _ a]) (auto simp: skip_Inr split: if_splits dest: IH)
  next
    case (ShowAllSubComponents p except)
    with Suc.prems obtain v where
      a: "each (\<lambda>(componentName, d).
                if excepted except componentName then skip
                else exec n (Show d no_opts)) (components (heap s p)) s = Inr (v, s')"
      by (auto simp: returning_Inr)
    show ?thesis
      by (rule each_steps[OF _ a]) (auto simp: skip_Inr split: if_splits dest: IH)
  next
    case (Load c fetchParams callback)
    with Suc.prems obtain cp where cp: "coll (heap s c) = Some cp"
      by (auto split: option.splits)
    have "prim s s'"
    proof (cases fetchParams)
      case None
      have "prim s ((upd c (\<lambda>x. x\<lparr>coll := Some (cp\<lparr>params := params cp\<rparr>)\<rparr>) s)
               \<lparr>pending := pending s @ [\<lparr>target = c, fdata = params cp, success_cb = callback\<rparr>]\<rparr>)"
        by (rule prim.queued[OF cp])
      with Suc.prems Load cp None show ?thesis by (simp add: Let_def)
    next
      case (Some fp)
      have "prim s ((upd c (\<lambda>x. x\<lparr>coll := Some (cp\<lparr>params := underscore_extend Map.empty [defaultParams cp, fp]\<rparr>)\<rparr>) s)
               \<lparr>pending := pending s @ [\<lparr>target = c, fdata = underscore_extend Map.empty [defaultParams cp, fp], success_cb = callback\<rparr>]\<rparr>)"
        by (rule prim.queued[OF cp])
      with Suc.prems Load cp Some show ?thesis by (simp add: Let_def)
    qed
    then show ?thesis by simp
  next
    case (Refresh c callback)
    with Suc.prems show ?thesis
      by (auto simp: returning_Inr split: option.splits dest: IH)
  qed
qed

lemma each_exec_prims: "each (exec n) calls s = Inr (r, s') \<Longrightarrow> prim\<^sup>*\<^sup>* s s'"
  by (erule each_steps[rotated]) (rule exec_prims)

lemma get_upd [simp]:
  "get (m(k \<mapsto> v)) k' = (if k' = k then v else get m k')"
  by (simp add: get_def)

lemma prim_noview:
  assumes "prim s s'" "view (heap s c) = None"
  shows "view (heap s' c) = None \<and> setup_calls (heap s' c) = setup_calls (heap s c)
         \<and> (isSetup (heap s' c) \<longrightarrow> isSetup (heap s c))"
  using assms
  by (cases rule: prim.cases)
     (auto simp: show_view_def set_visible_def hide_view_def run_teardown_def isSetup_def)

lemma prims_noview:
  assumes "prim\<^sup>*\<^sup>* s s'" "view (heap s c) = None"
  shows "view (heap s' c) = None \<and> setup_calls (heap s' c) = setup_calls (heap s c)
         \<and> (isSetup (heap s' c) \<longrightarrow> isSetup (heap s c))"
  using assms
proof (induction rule: rtranclp_induct)
  case base
  then show ?case by simp
next
  case (step y z)
  then show ?case using prim_noview[of y z c] by auto
qed










subsection \<open>Setup and teardown\<close>


text \<open>
  C10. For a component without a view, no sequence of calls (any number of calls of
  \<^verbatim>\<open>show()\<close>, with a \<^verbatim>\<open>setup\<close> function defined or not) runs \<^verbatim>\<open>setup\<close> or sets
  \<^verbatim>\<open>isSetup\<close>: the count of setup calls stays, an unset \<^verbatim>\<open>isSetup\<close> stays unset,
  and the component still has no view.
\<close>

theorem no_view_no_setup:
  assumes "view (heap s c) = None"
    and "each (exec n) calls s = Inr (r, s')"
  shows "setup_calls (heap s' c) = setup_calls (heap s c)
         \<and> (\<not> isSetup (heap s c) \<longrightarrow> \<not> isSetup (heap s' c))
         \<and> view (heap s' c) = None"
  using prims_noview[OF each_exec_prims[OF assms(2)] assms(1)] by auto

text \<open>Three calls of \<^verbatim>\<open>show()\<close> on a component without a view that defines \<^verbatim>\<open>setup\<close>.\<close>

lemma run3: "\<exists>r s'. each (exec 5) [Show 0 no_opts, Show 0 no_opts, Show 0 no_opts] without_view = Inr (r, s')"
  by (simp add: without_view_def empty_store_def blank_def evs cong: andThen_weak_cong each_weak_cong)

theorem no_view_no_setup_witness:
  "view (heap without_view 0) = None \<and> has_setup (heap without_view 0) \<and>
   (\<exists>r s'. each (exec 5) [Show 0 no_opts, Show 0 no_opts, Show 0 no_opts] without_view = Inr (r, s')
      \<and> setup_calls (heap s' 0) = 0 \<and> \<not> isSetup (heap s' 0))"
proof -
  have v: "view (heap without_view 0) = None" "has_setup (heap without_view 0)"
    "setup_calls (heap without_view 0) = 0" "\<not> isSetup (heap without_view 0)"
    by (simp_all add: without_view_def empty_store_def blank_def isSetup_def get_def)
  obtain r s' where run: "each (exec 5) [Show 0 no_opts, Show 0 no_opts, Show 0 no_opts] without_view = Inr (r, s')"
    using run3 by blast
  from no_view_no_setup[OF v(1) run] v run show ?thesis by auto
qed




subsection \<open>Loading a collection\<close>

text \<open>
  C3, as amended. A call of \<^verbatim>\<open>load\<close> on a collection component returns the
  component and issues one fetch with the stored parameters. With a \<^verbatim>\<open>fetchParams\<close>
  argument the stored parameters become \<^verbatim>\<open>_.extend({}, defaultParams, fetchParams)\<close>:
  a key of \<^verbatim>\<open>fetchParams\<close> has the supplied value, any other key the default one.
  Without the argument the stored parameters are left as they were.
\<close>

theorem load_params:
  assumes "coll (heap s c) = Some cp"
  shows "\<exists>s' cp'. exec (Suc n) (Load c fetchParams callback) s = Inr (RThis c, s')
           \<and> coll (heap s' c) = Some cp'
           \<and> defaultParams cp' = defaultParams cp
           \<and> (case fetchParams of
                Some fp \<Rightarrow> params cp' = underscore_extend Map.empty [defaultParams cp, fp]
                  \<and> (\<forall>k. params cp' k = (case fp k of Some v \<Rightarrow> Some v | None \<Rightarrow> defaultParams cp k))
              | None \<Rightarrow> params cp' = params cp)
           \<and> pending s' = pending s @ [\<lparr>target = c, fdata = params cp', success_cb = callback\<rparr>]"
  using assms
  by (cases fetchParams) (auto simp: Let_def underscore_extend_def map_add_def split: option.splits)

text \<open>
  \<^verbatim>\<open>load({sort: 'date'})\<close> with the defaults \<^verbatim>\<open>{sort: 'name', page: 1}\<close> stores
  \<^verbatim>\<open>{sort: 'date', page: 1}\<close>.
\<close>

theorem load_params_witness:
  "\<exists>s' cp'. exec (Suc 0) (Load 0 (Some [''sort'' \<mapsto> JStr ''date'']) NoCallback) items = Inr (RThis 0, s')
      \<and> coll (heap s' 0) = Some cp'
      \<and> params cp' ''sort'' = Some (JStr ''date'') \<and> params cp' ''page'' = Some (JNum 1)"
proof -
  have c: "coll (heap items 0) = Some \<lparr>defaultParams = [''sort'' \<mapsto> JStr ''name'', ''page'' \<mapsto> JNum 1],
                                 params = [''sort'' \<mapsto> JStr ''name'', ''page'' \<mapsto> JNum 1],
                                 collectionLoaded = False\<rparr>"
    by (simp add: items_def empty_store_def blank_def)
  from load_params[OF c, of 0 "Some [''sort'' \<mapsto> JStr ''date'']" NoCallback]
  show ?thesis by auto
qed

text \<open>
  After \<^verbatim>\<open>load({sort: 'date'})\<close>, a call \<^verbatim>\<open>load()\<close> without parameters does not store
  the merge of the defaults with an empty object: the parameters of the call before stay.
\<close>

theorem load_without_params_counterexample:
  "\<exists>r s' cp'. each (exec (Suc 0)) [Load 0 (Some [''sort'' \<mapsto> JStr ''date'']) NoCallback, Load 0 None NoCallback] items
        = Inr (r, s')
      \<and> coll (heap s' 0) = Some cp'
      \<and> params cp' \<noteq> underscore_extend Map.empty [defaultParams cp', Map.empty]"
proof -
  have "[''sort'' \<mapsto> JStr ''name'', ''page'' \<mapsto> JNum 1, ''sort'' \<mapsto> JStr ''date''] ''sort''
        \<noteq> [''sort'' \<mapsto> JStr ''name'', ''page'' \<mapsto> (JNum 1)] ''sort''"
    by simp
  then have ne: "[''sort'' \<mapsto> JStr ''name'', ''page'' \<mapsto> JNum 1, ''sort'' \<mapsto> JStr ''date'']
        \<noteq> [''sort'' \<mapsto> JStr ''name'', ''page'' \<mapsto> (JNum 1)]"
    by metis
  show ?thesis
    using ne
    by (simp add: items_def empty_store_def blank_def upd_def andThen_simps underscore_extend_def Let_def
        cong: andThen_weak_cong each_weak_cong)
qed

subsection \<open>Calls that throw\<close>







subsection \<open>Frames: what a call can change in a component tree\<close>

lemma same_structure_refl [simp]: "same_structure x x"
  by (simp add: same_structure_def)


lemma frame_refl [simp]: "frame rank hb ub tgt s s"
  by (simp add: frame_def)

















subsection \<open>Enough fuel\<close>









lemma frame_structure: "frame rank hb ub tgt s s' \<Longrightarrow> same_structure (heap s x) (heap s' x)"
  by (simp add: frame_def)




subsection \<open>Singly mode\<close>

lemma excepted_Some [simp]: "excepted (Some xs) k \<longleftrightarrow> k \<in> set xs"
  by (simp add: excepted_def)





lemma family_wf: "wf_tree depth1 family"
  by (auto simp: wf_tree_def family_def empty_store_def blank_def depth1_def split: if_splits)

subsection \<open>Showing a collection component\<close>












subsection \<open>Bubbling and removal\<close>

lemmas emitter_defs = bubble_def unbubble_def removeComponent_def on_def off_def listenTo_def
  stopListening_def

text \<open>
  C8, at a failing input. In \<^verbatim>\<open>family\<close> the parent bubbles the event \<^verbatim>\<open>changed\<close> of
  its sub-component \<^verbatim>\<open>a\<close> and then removes \<^verbatim>\<open>a\<close>. The slot and the registry entry
  are gone and so is the subscription that \<^verbatim>\<open>addComponent\<close> made with \<^verbatim>\<open>listenTo\<close>,
  but the relay, subscribed with \<^verbatim>\<open>on\<close>, is still there: when the removed component
  triggers \<^verbatim>\<open>changed\<close>, the parent emits it again.
\<close>

theorem relay_survives_removeComponent:
  "slots (heap (removeComponent 0 ''a'' (bubble 0 ''a'' ''changed'' family)) 0) ''a'' = None
   \<and> map_of (components (heap (removeComponent 0 ''a'' (bubble 0 ''a'' ''changed'' family)) 0)) ''a'' = None
   \<and> listeners (heap (removeComponent 0 ''a'' (bubble 0 ''a'' ''changed'' family)) 1)
        = [Listener ''changed'' (Relay 0 0 ''changed'') None]
   \<and> (\<exists>s'. exec 3 (Trigger 1 ''changed'' [Data (JStr ''v'')])
               (removeComponent 0 ''a'' (bubble 0 ''a'' ''changed'' family)) = Inr (RThis 1, s')
          \<and> trace s' = [(1, ''changed'', [Data (JStr ''v'')]), (0, ''changed'', [Data (JStr ''v'')])])"
  by (simp add: emitter_defs family_def empty_store_def blank_def evs Let_def
      cong: andThen_weak_cong each_weak_cong)

text \<open>
  C7, at a failing input. In \<^verbatim>\<open>family\<close> the parent bubbles the event \<^verbatim>\<open>changed\<close> of its
  sub-component \<^verbatim>\<open>a\<close>: a trigger of \<^verbatim>\<open>changed\<close> on \<^verbatim>\<open>a\<close> makes the parent emit it
  again with the same argument, and after \<^verbatim>\<open>unbubble\<close> it does so no longer. After two
  calls of \<^verbatim>\<open>bubble\<close>, though, \<^verbatim>\<open>_bubbledEvts\<close> records the second relay only (line 101
  overwrites the record of the first): one \<^verbatim>\<open>unbubble\<close> removes the second relay, a second
  \<^verbatim>\<open>unbubble\<close> removes nothing more, and the parent still emits the event again.
\<close>

theorem relay_survives_unbubble:
  "(\<exists>s'. exec 3 (Trigger 1 ''changed'' [Data (JStr ''v'')]) (bubble 0 ''a'' ''changed'' family)
            = Inr (RThis 1, s')
        \<and> trace s' = [(1, ''changed'', [Data (JStr ''v'')]), (0, ''changed'', [Data (JStr ''v'')])])
   \<and> (\<exists>s1 s'. unbubble 0 ''a'' ''changed'' (bubble 0 ''a'' ''changed'' family) = Inr s1
        \<and> exec 3 (Trigger 1 ''changed'' [Data (JStr ''v'')]) s1 = Inr (RThis 1, s')
        \<and> trace s' = [(1, ''changed'', [Data (JStr ''v'')])])
   \<and> (\<exists>s1 s'. unbubble 0 ''a'' ''changed''
                  (bubble 0 ''a'' ''changed'' (bubble 0 ''a'' ''changed'' family)) = Inr s1
        \<and> exec 3 (Trigger 1 ''changed'' [Data (JStr ''v'')]) s1 = Inr (RThis 1, s')
        \<and> trace s' = [(1, ''changed'', [Data (JStr ''v'')]), (0, ''changed'', [Data (JStr ''v'')])])
   \<and> (\<exists>s1 s2 s'. unbubble 0 ''a'' ''changed''
                  (bubble 0 ''a'' ''changed'' (bubble 0 ''a'' ''changed'' family)) = Inr s1
        \<and> unbubble 0 ''a'' ''changed'' s1 = Inr s2
        \<and> exec 3 (Trigger 1 ''changed'' [Data (JStr ''v'')]) s2 = Inr (RThis 1, s')
        \<and> trace s' = [(1, ''changed'', [Data (JStr ''v'')]), (0, ''changed'', [Data (JStr ''v'')])])"
  by (simp add: emitter_defs family_def empty_store_def blank_def evs Let_def
      cong: andThen_weak_cong each_weak_cong)

text \<open>
  C9, at a failing input. In \<^verbatim>\<open>family\<close> the parent bubbles the event \<^verbatim>\<open>changed\<close> of its
  sub-component \<^verbatim>\<open>a\<close> and then removes \<^verbatim>\<open>a\<close>. \<^verbatim>\<open>removeComponent\<close> leaves the record of
  the relay in \<^verbatim>\<open>_bubbledEvts\<close>, so that \<^verbatim>\<open>unbubble\<close> passes its test and calls
  \<^verbatim>\<open>this[componentName].off\<close> on the slot that is gone: it throws. Where no relay is
  recorded \<^verbatim>\<open>unbubble\<close> changes nothing, as \<^verbatim>\<open>bubble\<close> and \<^verbatim>\<open>removeComponent\<close> do for a
  name without a child, and \<^verbatim>\<open>hide()\<close> of the hidden sub-component \<^verbatim>\<open>b\<close> returns
  \<^verbatim>\<open>false\<close> and changes nothing.
\<close>

theorem unbubble_throws_after_removeComponent:
  "bubbledEvts (heap (removeComponent 0 ''a'' (bubble 0 ''a'' ''changed'' family)) 0) (''a'', ''changed'')
      = Some (Relay 0 0 ''changed'')
   \<and> slots (heap (removeComponent 0 ''a'' (bubble 0 ''a'' ''changed'' family)) 0) ''a'' = None
   \<and> unbubble 0 ''a'' ''changed'' (removeComponent 0 ''a'' (bubble 0 ''a'' ''changed'' family))
      = Inl TypeError
   \<and> unbubble 0 ''a'' ''changed'' family = Inr family
   \<and> bubble 0 ''c'' ''changed'' family = family
   \<and> removeComponent 0 ''c'' family = family
   \<and> exec 1 (Hide 2 no_opts) family = Inr (RFalse, family)"
  by (simp add: emitter_defs family_def empty_store_def blank_def evs Let_def isVisible_def get_def
      cong: andThen_weak_cong each_weak_cong)

subsection \<open>What the handler leaves in singly mode\<close>










lemmas run_defs = empty_store_def blank_def addComponent_def setName_def listenTo_def
  Let_def self_evt_def key_of_def except_of_def isVisible_def get_def handlers_for_def
  set_visible_def run_teardown_def hide_view_def show_view_def isSetup_def no_opts_def

lemma decapitalize_names:
  "decapitalize ''a'' = ''a''" "decapitalize ''b'' = ''b''" "decapitalize ''show'' = ''show''"
  by code_simp+




subsection \<open>Two visible sub-components in singly mode\<close>

text \<open>
  C4, at a failing input. A parent in singly mode gets two sub-components, \<^verbatim>\<open>a\<close> and
  \<^verbatim>\<open>b\<close>, by \<^verbatim>\<open>addComponent\<close>; the first is shown, then the second with
  \<^verbatim>\<open>show({silent: true})\<close>.
  No \<^verbatim>\<open>component:shown\<close> is emitted, the handler of the parent does not run, and both
  sub-components are visible, neither being an overlay. The same calls with \<^verbatim>\<open>show()\<close>
  for the second one leave the first one hidden. And two components constructed with
  \<^verbatim>\<open>visible: true\<close> are both visible once \<^verbatim>\<open>addComponent\<close> has added them to the parent,
  which shows each of them silently.
\<close>

theorem two_visible_in_singly_mode:
  "(\<exists>s'. andThen (andThen (andThen (addComponent 3 0 1 (Some ''a'') loose) (addComponent 3 0 2 (Some ''b'')))
             (exec 9 (Show 1 no_opts))) (exec 9 (Show 2 \<lparr>silent = True, oparams = None\<rparr>))
          = Inr (RThis 2, s')
       \<and> truthy (get (options (heap s' 0)) ''singly'')
       \<and> components (heap s' 0) = [(''a'', 1), (''b'', 2)]
       \<and> isVisible s' 1 \<and> isVisible s' 2 \<and> \<not> overlay (heap s' 1) \<and> \<not> overlay (heap s' 2))
   \<and> (\<exists>s'. andThen (andThen (andThen (addComponent 3 0 1 (Some ''a'') loose) (addComponent 3 0 2 (Some ''b'')))
             (exec 9 (Show 1 no_opts))) (exec 9 (Show 2 no_opts))
          = Inr (RThis 2, s')
       \<and> \<not> isVisible s' 1 \<and> isVisible s' 2)
   \<and> (\<exists>s'. andThen (addComponent 3 0 1 (Some ''a'') eager) (addComponent 3 0 2 (Some ''b'')) = Inr (RThis 2, s')
       \<and> truthy (get (options (heap s' 0)) ''singly'')
       \<and> components (heap s' 0) = [(''a'', 1), (''b'', 2)]
       \<and> isVisible s' 1 \<and> isVisible s' 2 \<and> \<not> overlay (heap s' 1) \<and> \<not> overlay (heap s' 2))"
  by (simp add: loose_def eager_def run_defs decapitalize_names evs cong: andThen_weak_cong each_weak_cong)


end
